theory Spec2Isabelle
  imports Complex_Main
begin

section \<open>The fisheye projector (fragment shader of the dome projection module)\<close>

text \<open>
  The shader computes in GLSL floats; they are modelled as reals, every operation as its
  exact counterpart.
\<close>

type_synonym vec2 = "real \<times> real"
type_synonym vec3 = "real \<times> real \<times> real"
type_synonym vec4 = "real \<times> real \<times> real \<times> real"

text \<open>
  The macro \<open>PI\<close> is the literal \<open>3.14159265359\<close>. At the precision of the shader's floats
  the literal is the float nearest to \<open>\<pi>\<close>; with floats read as reals, the macro is \<open>\<pi>\<close>.
\<close>

definition PI :: real where
  "PI = pi"

definition DOME_FOV :: real where
  "DOME_FOV = 180"

text \<open>GLSL \<open>length\<close> of a \<open>vec2\<close>.\<close>

definition length_vec2 :: "vec2 \<Rightarrow> real" where
  "length_vec2 p = sqrt (fst p * fst p + snd p * snd p)"

text \<open>
  GLSL \<open>atan(y, x)\<close>: the angle of the point \<open>(x, y)\<close> in \<open>[-\<pi>, \<pi>]\<close>. GLSL leaves
  the result undefined when both arguments are zero; \<open>und\<close> is the value the hardware
  returns there.
\<close>

definition atan_glsl :: "real \<Rightarrow> real \<Rightarrow> real \<Rightarrow> real" where
  "atan_glsl und y x =
     (if 0 < x then arctan (y / x)
      else if x < 0 \<and> 0 \<le> y then arctan (y / x) + pi
      else if x < 0 then arctan (y / x) - pi
      else if 0 < y then pi / 2
      else if y < 0 then - (pi / 2)
      else und)"

text \<open>
  What one invocation of the fragment shader leaves behind: the colour written to
  \<open>gl_FragColor\<close> and the direction handed to \<open>textureCube\<close>, if the cubemap was sampled.
\<close>

record fragment =
  gl_FragColor :: vec4
  sampleDir :: "vec3 option"

text \<open>\<open>vec2 uv = vUv * 2.0 - 1.0\<close>: the centred coordinates of the pixel.\<close>

definition centred :: "vec2 \<Rightarrow> vec2" where
  "centred vUv = (fst vUv * 2 - 1, snd vUv * 2 - 1)"

text \<open>
  The body of the shader's \<open>main\<close>, with the value of the macro as its first argument:
  \<open>fragmentShader\<close> is the shader with \<open>PI\<close>; the other values of the argument are for
  what the literal is when it is read at a finite precision.
\<close>

definition fragmentShader_at ::
  "real \<Rightarrow> (vec3 \<Rightarrow> vec4) \<Rightarrow> real \<Rightarrow> real \<Rightarrow> vec2 \<Rightarrow> fragment" where
  "fragmentShader_at macro tCube fov und vUv =
     (let uv = centred vUv;
          r = length_vec2 uv
      in if r > 1 then \<lparr>gl_FragColor = (0, 0, 0, 1), sampleDir = None\<rparr>
         else
           let theta = atan_glsl und (snd uv) (fst uv);
               phi = r * (fov / 2) * macro / 180;
               dir = (sin phi * cos theta, sin phi * sin theta, cos phi);
               sd = (fst dir, fst (snd dir), - snd (snd dir))
           in \<lparr>gl_FragColor = tCube sd, sampleDir = Some sd\<rparr>)"

definition fragmentShader :: "(vec3 \<Rightarrow> vec4) \<Rightarrow> real \<Rightarrow> real \<Rightarrow> vec2 \<Rightarrow> fragment" where
  "fragmentShader tCube fov und vUv = fragmentShader_at PI tCube fov und vUv"




section \<open>Module and host state\<close>

text \<open>
  The dome projection module and the recording module keep their state in top-level
  variables; the model gathers them in one record, next to what the host keeps for
  them: the window, the renderer's size, the encoders created, pending timers, the
  downloads triggered, and the console. Times read from \<open>performance.now()\<close> are reals,
  \<open>Date.now()\<close> is a natural number of milliseconds.
\<close>

datatype log =
    LogDomeInitialized
  | LogDomeMode bool
  | LogAspectOn nat
  | LogAspectOff
  | LogEnableDomeFirst
  | LogEnableDomeFirstRecording
  | LogDomeFrame nat
  | LogDomeMustBeEnabled
  | LogRenderedHighRes
  | LogExportedDomeFrame string
  | LogVP9Fallback
  | LogRecordingStarted
  | LogRecordingSaved
  | LogRecordingStopped nat
  | LogDomeNotInitialized
  | LogExportedFrame
  | LogSequenceStarted
  | LogSequenceStopped nat
  | LogCapturedFrame nat

datatype payload = DataURL string | Blob "string list"

type_synonym download = "string \<times> payload"

text \<open>
  A \<open>MediaRecorder\<close> of the host: recording after \<open>start()\<close>; after \<open>stop()\<close> its last
  data and its \<open>stop\<close> event are still to be delivered; inactive once they were.
\<close>

datatype enc_phase = EncRecording | EncStopping | EncInactive

record encoder =
  phase :: enc_phase
  vp9 :: bool

record world =
  DOME_MODE :: bool
  cubeCamera :: bool
  lastFrameTime :: real
  domeFrameCount :: nat
  fullscreen1to1 :: bool
  isRecording :: bool
  mediaRecorder :: "nat option"
  recordedChunks :: "string list"
  imageSequenceMode :: bool
  imageSequenceFrames :: "string list"
  imageSequenceFrameCount :: nat
  innerWidth :: nat
  innerHeight :: nat
  pixelRatio :: real
  rendererSize :: "nat \<times> nat"
  vp9Supported :: bool
  encoders :: "encoder list"
  timers :: "(nat \<times> download) list"
  downloads :: "download list"
  console :: "log list"
  time :: real
  speed :: real

text \<open>
  The state after \<open>init()\<close> of the main module in a window of \<open>w\<close> by \<open>h\<close>: every
  module variable at its initialiser, the renderer at the window's size.
\<close>

definition init :: "nat \<Rightarrow> nat \<Rightarrow> real \<Rightarrow> bool \<Rightarrow> world" where
  "init w h pr codec =
     \<lparr>DOME_MODE = False, cubeCamera = False, lastFrameTime = 0, domeFrameCount = 0,
      fullscreen1to1 = False, isRecording = False, mediaRecorder = None,
      recordedChunks = [], imageSequenceMode = False, imageSequenceFrames = [],
      imageSequenceFrameCount = 0, innerWidth = w, innerHeight = h, pixelRatio = pr,
      rendererSize = (w, h), vp9Supported = codec, encoders = [], timers = [],
      downloads = [], console = [], time = 0, speed = 1 / 2\<rparr>"

subsection \<open>Host facilities\<close>

text \<open>
  \<open>renderer.setSize(w, h)\<close> of three.js stores the logical size; the canvas then has
  \<open>floor(w * pixelRatio)\<close> by \<open>floor(h * pixelRatio)\<close> pixels, which is what
  \<open>domElement.width\<close> and \<open>domElement.height\<close> read.
\<close>

definition setSize :: "nat \<Rightarrow> nat \<Rightarrow> world \<Rightarrow> world" where
  "setSize w h s = s\<lparr>rendererSize := (w, h)\<rparr>"

definition domElement_width :: "world \<Rightarrow> nat" where
  "domElement_width s = nat \<lfloor>real (fst (rendererSize s)) * pixelRatio s\<rfloor>"

definition domElement_height :: "world \<Rightarrow> nat" where
  "domElement_height s = nat \<lfloor>real (snd (rendererSize s)) * pixelRatio s\<rfloor>"

definition console_log :: "log \<Rightarrow> world \<Rightarrow> world" where
  "console_log m s = s\<lparr>console := console s @ [m]\<rparr>"

definition click_download :: "string \<Rightarrow> payload \<Rightarrow> world \<Rightarrow> world" where
  "click_download name body s = s\<lparr>downloads := downloads s @ [(name, body)]\<rparr>"

text \<open>
  The remainder operator \<open>%\<close> of JavaScript on numbers: the quotient is truncated toward
  zero, so the result has the sign of the dividend.
\<close>

definition js_rem :: "real \<Rightarrow> real \<Rightarrow> real" where
  "js_rem a b = a - b * of_int (if 0 \<le> a / b then \<lfloor>a / b\<rfloor> else \<lceil>a / b\<rceil>)"

text \<open>\<open>String(n)\<close> for a natural number, and \<open>padStart\<close> with a one-character filler.\<close>

definition digit_char :: "nat \<Rightarrow> char" where
  "digit_char d = ''0123456789'' ! d"

function String_of_nat :: "nat \<Rightarrow> string" where
  "String_of_nat n =
     (if n < 10 then [digit_char n] else String_of_nat (n div 10) @ [digit_char (n mod 10)])"
  by pat_completeness auto
termination
  by (relation "measure id") auto

declare String_of_nat.simps [simp del]

definition padStart :: "nat \<Rightarrow> char \<Rightarrow> string \<Rightarrow> string" where
  "padStart n c str = replicate (n - length str) c @ str"

section \<open>The dome projection module\<close>

definition CUBE_RESOLUTION :: nat where
  "CUBE_RESOLUTION = 2048"

definition DOME_OUTPUT_RESOLUTION :: nat where
  "DOME_OUTPUT_RESOLUTION = 4096"

definition DOME_TARGET_FPS :: nat where
  "DOME_TARGET_FPS = 30"

text \<open>
  \<open>1000 / DOME_TARGET_FPS\<close> is a division of doubles: its result is the double nearest to
  the quotient. The doubles between 32 and 64 are the multiples of \<open>2^-47\<close>, so the
  constant is \<open>33.333333333333336\<close>, a little more than a thirtieth of a second.
\<close>

definition DOME_FRAME_DURATION :: real where
  "DOME_FRAME_DURATION = real_of_int (round (1000 / real DOME_TARGET_FPS * 2 ^ 47)) / 2 ^ 47"

text \<open>
  \<open>setupDomeProjection\<close> builds the cube camera, the fisheye scene and the render targets;
  of these the state keeps only that the cube camera now exists.
\<close>

definition setupDomeProjection :: "world \<Rightarrow> world" where
  "setupDomeProjection s = console_log LogDomeInitialized (s\<lparr>cubeCamera := True\<rparr>)"

definition isDomeMode :: "world \<Rightarrow> bool" where
  "isDomeMode s = DOME_MODE s"

definition getDomeTargetFPS :: nat where
  "getDomeTargetFPS = DOME_TARGET_FPS"

definition getDomeOutputResolution :: nat where
  "getDomeOutputResolution = DOME_OUTPUT_RESOLUTION"

definition getDomeFrameCount :: "world \<Rightarrow> nat" where
  "getDomeFrameCount s = domeFrameCount s"

definition incrementDomeFrameCount :: "world \<Rightarrow> world" where
  "incrementDomeFrameCount s = s\<lparr>domeFrameCount := domeFrameCount s + 1\<rparr>"

definition resetDomeFrameCount :: "world \<Rightarrow> world" where
  "resetDomeFrameCount s = s\<lparr>domeFrameCount := 0\<rparr>"

text \<open>
  \<open>shouldRenderDomeFrame\<close>, the frame pacer; \<open>currentTime\<close> is what \<open>performance.now()\<close>
  returns in the call. The subtractions and the remainder are taken exactly.
\<close>

definition shouldRenderDomeFrame :: "real \<Rightarrow> world \<Rightarrow> bool \<times> world" where
  "shouldRenderDomeFrame currentTime s =
     (if \<not> DOME_MODE s then (True, s)
      else
        let elapsed = currentTime - lastFrameTime s
        in if elapsed < DOME_FRAME_DURATION then (False, s)
           else
             let s1 = s\<lparr>lastFrameTime := currentTime - js_rem elapsed DOME_FRAME_DURATION,
                        domeFrameCount := domeFrameCount s + 1\<rparr>;
                 s2 = (if domeFrameCount s1 mod 30 = 0
                       then console_log (LogDomeFrame (domeFrameCount s1)) s1 else s1)
             in (True, s2))"

text \<open>
  \<open>renderDome\<close> moves the cube camera to the viewer and draws; none of the state kept
  here changes.
\<close>

definition renderDome :: "world \<Rightarrow> world" where
  "renderDome s = s"

definition renderDomeFrameHighRes :: "world \<Rightarrow> world" where
  "renderDomeFrameHighRes s =
     (if \<not> DOME_MODE s \<or> \<not> cubeCamera s then console_log LogDomeMustBeEnabled s
      else
        let originalSize = rendererSize s;
            s1 = setSize DOME_OUTPUT_RESOLUTION DOME_OUTPUT_RESOLUTION s;
            s2 = setSize (fst originalSize) (snd originalSize) s1
        in console_log LogRenderedHighRes s2)"

text \<open>\<open>exportDomeFrame\<close>; \<open>dataURL\<close> is what the canvas encodes to after the draw.\<close>

definition exportDomeFrame :: "string \<Rightarrow> world \<Rightarrow> world" where
  "exportDomeFrame dataURL s =
     (if \<not> DOME_MODE s \<or> \<not> cubeCamera s then console_log LogDomeMustBeEnabled s
      else
        let originalSize = rendererSize s;
            s1 = setSize DOME_OUTPUT_RESOLUTION DOME_OUTPUT_RESOLUTION s;
            name = ''dome_frame_'' @ padStart 6 CHR ''0'' (String_of_nat (domeFrameCount s1))
                     @ ''.png'';
            s2 = click_download name (DataURL dataURL) s1;
            s3 = setSize (fst originalSize) (snd originalSize) s2
        in console_log (LogExportedDomeFrame name) s3)"

text \<open>
  The \<open>keydown\<close> listener of the dome module; \<open>now\<close> is \<open>performance.now()\<close> at the
  event. The styling of the canvas and of the page in the square preview (position,
  scroll bars, background, wheel handler) is left out: only the renderer's size is kept.
\<close>

definition domeKeydown :: "string \<Rightarrow> real \<Rightarrow> string \<Rightarrow> world \<Rightarrow> world" where
  "domeKeydown key now dataURL s =
     (let s1 =
        (if key = ''d'' \<or> key = ''D'' then
           let a = s\<lparr>DOME_MODE := \<not> DOME_MODE s\<rparr>;
               b = console_log (LogDomeMode (DOME_MODE a)) a;
               c = (if DOME_MODE b \<and> \<not> cubeCamera b then setupDomeProjection b else b)
           in c\<lparr>lastFrameTime := now, domeFrameCount := 0\<rparr>
         else s);
          s2 =
        (if key = ''f'' \<or> key = ''F'' then
           (if DOME_MODE s1 then
              let a = s1\<lparr>fullscreen1to1 := \<not> fullscreen1to1 s1\<rparr>
              in if fullscreen1to1 a then
                   let sz = min (innerWidth a) (innerHeight a)
                   in console_log (LogAspectOn sz) (setSize sz sz a)
                 else console_log LogAspectOff (setSize (innerWidth a) (innerHeight a) a)
            else console_log LogEnableDomeFirst s1)
         else s1)
      in if (key = ''e'' \<or> key = ''E'') \<and> DOME_MODE s2 then exportDomeFrame dataURL s2 else s2)"

section \<open>The recording module\<close>

definition RECORDING_RESOLUTION :: nat where
  "RECORDING_RESOLUTION = 2048"

text \<open>
  The two handlers \<open>startRecording\<close> installs on the encoder. They read the module's
  variables when they run, not when they are installed.
\<close>

definition ondataavailable :: "string \<Rightarrow> world \<Rightarrow> world" where
  "ondataavailable data s =
     (if length data > 0 then s\<lparr>recordedChunks := recordedChunks s @ [data]\<rparr> else s)"

definition onstop :: "nat \<Rightarrow> world \<Rightarrow> world" where
  "onstop date s =
     (let s1 = click_download (''dome_recording_'' @ String_of_nat date @ ''.webm'')
                 (Blob (recordedChunks s)) s;
          s2 = console_log LogRecordingSaved s1
      in setSize (innerWidth s2) (innerHeight s2) s2)"

text \<open>
  \<open>new MediaRecorder(stream, options)\<close> throws when the codec asked for is not
  supported; the \<open>catch\<close> branch then builds one with the default codec.
\<close>

definition newMediaRecorder :: "bool \<Rightarrow> world \<Rightarrow> world" where
  "newMediaRecorder codec s =
     s\<lparr>mediaRecorder := Some (length (encoders s)),
       encoders := encoders s @ [\<lparr>phase = EncInactive, vp9 = codec\<rparr>]\<rparr>"

definition mediaRecorder_start :: "world \<Rightarrow> world" where
  "mediaRecorder_start s =
     (case mediaRecorder s of
        None \<Rightarrow> s
      | Some i \<Rightarrow> s\<lparr>encoders := (encoders s)[i := (encoders s ! i)\<lparr>phase := EncRecording\<rparr>]\<rparr>)"

text \<open>
  \<open>mediaRecorder.stop()\<close> only asks the encoder to finish: the handlers run when the
  host delivers the \<open>stop\<close> event.
\<close>

definition mediaRecorder_stop :: "world \<Rightarrow> world" where
  "mediaRecorder_stop s =
     (case mediaRecorder s of
        None \<Rightarrow> s
      | Some i \<Rightarrow>
          if phase (encoders s ! i) = EncRecording
          then s\<lparr>encoders := (encoders s)[i := (encoders s ! i)\<lparr>phase := EncStopping\<rparr>]\<rparr>
          else s)"

definition startRecording :: "world \<Rightarrow> world" where
  "startRecording s =
     (if isRecording s then s
      else
        let s1 = setSize RECORDING_RESOLUTION RECORDING_RESOLUTION s;
            s2 = (if vp9Supported s1 then newMediaRecorder True s1
                  else newMediaRecorder False (console_log LogVP9Fallback s1));
            s3 = s2\<lparr>recordedChunks := []\<rparr>;
            s4 = mediaRecorder_start s3;
            s5 = s4\<lparr>isRecording := True\<rparr>;
            s6 = resetDomeFrameCount s5
        in console_log LogRecordingStarted s6)"

definition stopRecording :: "world \<Rightarrow> world" where
  "stopRecording s =
     (if \<not> isRecording s \<or> mediaRecorder s = None then s
      else
        let s1 = mediaRecorder_stop s;
            s2 = s1\<lparr>isRecording := False\<rparr>
        in console_log (LogRecordingStopped (getDomeFrameCount s2)) s2)"

definition toggleRecording :: "world \<Rightarrow> world" where
  "toggleRecording s = (if isRecording s then stopRecording s else startRecording s)"

text \<open>
  The host finishing encoder \<open>i\<close>: it delivers the data recorded, then the \<open>stop\<close> event.
  It does so only for an encoder that was asked to stop.
\<close>

definition encoderFinalized :: "nat \<Rightarrow> string \<Rightarrow> nat \<Rightarrow> world \<Rightarrow> world" where
  "encoderFinalized i data date s =
     (if i < length (encoders s) \<and> phase (encoders s ! i) = EncStopping then
        let s1 = s\<lparr>encoders := (encoders s)[i := (encoders s ! i)\<lparr>phase := EncInactive\<rparr>]\<rparr>;
            s2 = ondataavailable data s1
        in onstop date s2
      else s)"

text \<open>
  \<open>exportSingleFrame\<close>; \<open>date\<close> is \<open>Date.now()\<close>, \<open>dataURL\<close> what the canvas encodes to.
\<close>

definition exportSingleFrame :: "nat \<Rightarrow> string \<Rightarrow> world \<Rightarrow> world" where
  "exportSingleFrame date dataURL s =
     (if \<not> cubeCamera s then console_log LogDomeNotInitialized s
      else
        let originalWidth = domElement_width s;
            originalHeight = domElement_height s;
            s1 = setSize getDomeOutputResolution getDomeOutputResolution s;
            name = ''dome_frame_'' @ String_of_nat getDomeOutputResolution @ ''x''
                     @ String_of_nat getDomeOutputResolution @ ''_'' @ String_of_nat date
                     @ ''.png'';
            s2 = click_download name (DataURL dataURL) s1;
            s3 = setSize originalWidth originalHeight s2
        in console_log LogExportedFrame s3)"

definition startImageSequence :: "world \<Rightarrow> world" where
  "startImageSequence s =
     (let s1 = s\<lparr>imageSequenceMode := True, imageSequenceFrames := [],
                 imageSequenceFrameCount := 0\<rparr>;
          s2 = setSize RECORDING_RESOLUTION RECORDING_RESOLUTION s1
      in console_log LogSequenceStarted s2)"

text \<open>
  \<open>stopImageSequence\<close>: one timer per frame, \<open>index * 100\<close> milliseconds out, that
  clicks the download of the frame when it fires.
\<close>

definition frame_name :: "nat \<Rightarrow> string" where
  "frame_name index = ''frame_'' @ padStart 6 CHR ''0'' (String_of_nat index) @ ''.png''"

definition stopImageSequence :: "world \<Rightarrow> world" where
  "stopImageSequence s =
     (let s1 = s\<lparr>imageSequenceMode := False\<rparr>;
          s2 = console_log (LogSequenceStopped (imageSequenceFrameCount s1)) s1;
          s3 = s2\<lparr>timers := timers s2 @
                  map (\<lambda>(index, dataURL). (index * 100, (frame_name index, DataURL dataURL)))
                    (enumerate 0 (imageSequenceFrames s2))\<rparr>;
          s4 = s3\<lparr>imageSequenceFrames := []\<rparr>
      in setSize (innerWidth s4) (innerHeight s4) s4)"

definition toggleImageSequence :: "world \<Rightarrow> world" where
  "toggleImageSequence s =
     (if imageSequenceMode s then stopImageSequence s else startImageSequence s)"

definition captureImageSequenceFrame :: "string \<Rightarrow> world \<Rightarrow> world" where
  "captureImageSequenceFrame dataURL s =
     (if \<not> imageSequenceMode s then s
      else
        let s1 = s\<lparr>imageSequenceFrames := imageSequenceFrames s @ [dataURL]\<rparr>;
            s2 = s1\<lparr>imageSequenceFrameCount := imageSequenceFrameCount s1 + 1\<rparr>
        in if imageSequenceFrameCount s2 mod 30 = 0
           then console_log (LogCapturedFrame (imageSequenceFrameCount s2)) s2 else s2)"

definition isCurrentlyRecording :: "world \<Rightarrow> bool" where
  "isCurrentlyRecording s = isRecording s"

definition isImageSequenceMode :: "world \<Rightarrow> bool" where
  "isImageSequenceMode s = imageSequenceMode s"

text \<open>The \<open>keydown\<close> listener of the recording module.\<close>

definition recordingKeydown :: "string \<Rightarrow> nat \<Rightarrow> string \<Rightarrow> world \<Rightarrow> world" where
  "recordingKeydown key date dataURL s =
     (let s1 =
        (if key = ''r'' \<or> key = ''R'' then
           (if isDomeMode s then toggleRecording s
            else console_log LogEnableDomeFirstRecording s)
         else s);
          s2 =
        (if key = ''i'' \<or> key = ''I'' then
           (if isDomeMode s1 then exportSingleFrame date dataURL s1
            else console_log LogEnableDomeFirst s1)
         else s1)
      in if key = ''s'' \<or> key = ''S'' then
           (if isDomeMode s2 then toggleImageSequence s2
            else console_log LogEnableDomeFirst s2)
         else s2)"

text \<open>
  The host running the pending timers: each fires in the order of its delay, timers of
  equal delay in the order they were set.
\<close>

definition runTimers :: "world \<Rightarrow> world" where
  "runTimers s = s\<lparr>downloads := downloads s @ map snd (sort_key fst (timers s)), timers := []\<rparr>"

section \<open>The main loop\<close>

text \<open>
  \<open>animate\<close> and \<open>render\<close> of the main module of the born experience, as far as the clock
  and the capture go (the updates of the scene are left out): \<open>hostDelta\<close> is what
  \<open>clock.getDelta()\<close> measures, \<open>dataURL\<close> what the canvas encodes to after the draw.
\<close>

definition frameDelta :: "real \<Rightarrow> world \<Rightarrow> real" where
  "frameDelta hostDelta s = (if isDomeMode s then 1 / real getDomeTargetFPS else hostDelta)"

definition render :: "real \<Rightarrow> string \<Rightarrow> world \<Rightarrow> world" where
  "render hostDelta dataURL s =
     (let delta = frameDelta hostDelta s;
          s1 = s\<lparr>time := time s + delta * speed s * 0.5\<rparr>
      in if isDomeMode s1 then
           let s2 = renderDome s1
           in if isImageSequenceMode s2 then captureImageSequenceFrame dataURL s2 else s2
         else s1)"

definition animate :: "real \<Rightarrow> real \<Rightarrow> string \<Rightarrow> world \<Rightarrow> world" where
  "animate now hostDelta dataURL s =
     (if isDomeMode s then
        (case shouldRenderDomeFrame now s of
           (False, s1) \<Rightarrow> s1
         | (True, s1) \<Rightarrow> render hostDelta dataURL s1)
      else render hostDelta dataURL s)"

definition onWindowResize :: "nat \<Rightarrow> nat \<Rightarrow> world \<Rightarrow> world" where
  "onWindowResize w h s = setSize w h (s\<lparr>innerWidth := w, innerHeight := h\<rparr>)"

section \<open>Everything that can happen to the state\<close>

text \<open>
  The host's events and the calls the two modules export (the recording and export
  functions are also reachable from the console, as properties of \<open>window\<close>).
\<close>

datatype event =
    KeyDown string real nat string
  | AnimationFrame real real string
  | EncoderFinalized nat string nat
  | TimersRun
  | WindowResize nat nat
  | CallShouldRenderDomeFrame real
  | CallRenderDome
  | CallRenderDomeFrameHighRes
  | CallExportDomeFrame string
  | CallIncrementDomeFrameCount
  | CallResetDomeFrameCount
  | CallToggleRecording
  | CallStartRecording
  | CallStopRecording
  | CallExportSingleFrame nat string
  | CallToggleImageSequence
  | CallStartImageSequence
  | CallStopImageSequence
  | CallCaptureImageSequenceFrame string

fun step :: "event \<Rightarrow> world \<Rightarrow> world" where
  "step (KeyDown key now date dataURL) s =
     recordingKeydown key date dataURL (domeKeydown key now dataURL s)"
| "step (AnimationFrame now hostDelta dataURL) s = animate now hostDelta dataURL s"
| "step (EncoderFinalized i data date) s = encoderFinalized i data date s"
| "step TimersRun s = runTimers s"
| "step (WindowResize w h) s = onWindowResize w h s"
| "step (CallShouldRenderDomeFrame now) s = snd (shouldRenderDomeFrame now s)"
| "step CallRenderDome s = renderDome s"
| "step CallRenderDomeFrameHighRes s = renderDomeFrameHighRes s"
| "step (CallExportDomeFrame dataURL) s = exportDomeFrame dataURL s"
| "step CallIncrementDomeFrameCount s = incrementDomeFrameCount s"
| "step CallResetDomeFrameCount s = resetDomeFrameCount s"
| "step CallToggleRecording s = toggleRecording s"
| "step CallStartRecording s = startRecording s"
| "step CallStopRecording s = stopRecording s"
| "step (CallExportSingleFrame date dataURL) s = exportSingleFrame date dataURL s"
| "step CallToggleImageSequence s = toggleImageSequence s"
| "step CallStartImageSequence s = startImageSequence s"
| "step CallStopImageSequence s = stopImageSequence s"
| "step (CallCaptureImageSequenceFrame dataURL) s = captureImageSequenceFrame dataURL s"

fun run :: "event list \<Rightarrow> world \<Rightarrow> world" where
  "run [] s = s"
| "run (e # es) s = run es (step e s)"

text \<open>
  The pacer over successive host callbacks: how many of the timestamps it answers with
  "produce".
\<close>

fun produced :: "real list \<Rightarrow> world \<Rightarrow> nat" where
  "produced [] s = 0"
| "produced (t # ts) s =
     (case shouldRenderDomeFrame t s of
        (True, s1) \<Rightarrow> Suc (produced ts s1)
      | (False, s1) \<Rightarrow> produced ts s1)"

fun paced :: "real list \<Rightarrow> world \<Rightarrow> world" where
  "paced [] s = s"
| "paced (t # ts) s = paced ts (snd (shouldRenderDomeFrame t s))"

section \<open>Example runs\<close>

text \<open>The state after pressing D once, at time 0, in a fresh 1920 by 1080 window.\<close>

definition dome_on :: world where
  "dome_on = domeKeydown ''d'' 0 [] (init 1920 1080 1 True)"

text \<open>
  Host callbacks in bursts: six a millisecond apart near the end of every tenth of a
  second, sixty a second on average.
\<close>

definition burst :: "nat \<Rightarrow> real list" where
  "burst k = [real (100 * k) + 90, real (100 * k) + 91, real (100 * k) + 92,
              real (100 * k) + 93, real (100 * k) + 94, real (100 * k) + 95]"

definition bursty :: "nat \<Rightarrow> real list" where
  "bursty n = concat (map burst [0..<n])"

text \<open>Dome mode switched off again at 500, and on again at 1000.\<close>

definition dome_off :: world where
  "dome_off = step (KeyDown ''d'' 500 0 []) dome_on"

definition dome_again :: world where
  "dome_again = step (KeyDown ''d'' 1000 0 []) dome_off"

text \<open>The events that set the frame counter back to 0, and the runs free of them.\<close>

fun resets_counter :: "event \<Rightarrow> world \<Rightarrow> bool" where
  "resets_counter (KeyDown key now date dataURL) s =
     (key = ''d'' \<or> key = ''D'' \<or> ((key = ''r'' \<or> key = ''R'') \<and> DOME_MODE s \<and> \<not> isRecording s))"
| "resets_counter CallToggleRecording s = (\<not> isRecording s)"
| "resets_counter CallStartRecording s = (\<not> isRecording s)"
| "resets_counter CallResetDomeFrameCount s = True"
| "resets_counter e s = False"

fun quiet :: "event list \<Rightarrow> world \<Rightarrow> bool" where
  "quiet [] s = True"
| "quiet (e # es) s = (\<not> resets_counter e s \<and> quiet es (step e s))"

text \<open>Dome mode on at 0, then the frames produced at 40 and 80.\<close>

definition two_frames :: world where
  "two_frames = run [AnimationFrame 40 0.016 [], AnimationFrame 80 0.016 []] dome_on"





text \<open>Dome mode on and the F key pressed: the square preview, 1080 by 1080.\<close>

definition square :: world where
  "square = step (KeyDown ''f'' 5 0 []) dome_on"

section \<open>Properties of the projector\<close>

text \<open>
  Claim C1. A pixel whose centred coordinates lie outside the unit disk is written as opaque
  black, RGBA \<open>(0, 0, 0, 1)\<close>, and the cubemap is not sampled for it; whenever the shader
  does sample the cubemap, the pixel lies in the closed unit disk.
\<close>

theorem outside_disk_black:
  "(length_vec2 (centred vUv) > 1 \<longrightarrow>
      fragmentShader tCube fov und vUv = \<lparr>gl_FragColor = (0, 0, 0, 1), sampleDir = None\<rparr>) \<and>
   (sampleDir (fragmentShader tCube fov und vUv) \<noteq> None \<longrightarrow> length_vec2 (centred vUv) \<le> 1)"
  by (simp add: fragmentShader_def fragmentShader_at_def Let_def)

theorem outside_disk_black_witness:
  "length_vec2 (centred (3 / 2, 1 / 2)) > 1 \<and>
   fragmentShader (\<lambda>d. (1, 1, 1, 1)) DOME_FOV 0 (3 / 2, 1 / 2) =
     \<lparr>gl_FragColor = (0, 0, 0, 1), sampleDir = None\<rparr> \<and>
   sampleDir (fragmentShader (\<lambda>d. (1, 1, 1, 1)) DOME_FOV 0 (1 / 2, 1 / 2)) \<noteq> None \<and>
   length_vec2 (centred (1 / 2, 1 / 2)) \<le> 1"
proof -
  have far: "length_vec2 (centred (3 / 2, 1 / 2)) > 1"
    by (simp add: length_vec2_def centred_def)
  have near: "sampleDir (fragmentShader (\<lambda>d. (1, 1, 1, 1)) DOME_FOV 0 (1 / 2, 1 / 2)) \<noteq> None"
    by (simp add: fragmentShader_def fragmentShader_at_def Let_def length_vec2_def centred_def)
  show ?thesis
    using far near
      outside_disk_black [of "(3 / 2, 1 / 2)" "\<lambda>d. (1, 1, 1, 1)" DOME_FOV 0]
      outside_disk_black [of "(1 / 2, 1 / 2)" "\<lambda>d. (1, 1, 1, 1)" DOME_FOV 0]
    by blast
qed

subsection \<open>Bounds on \<open>\<pi>\<close>\<close>











subsection \<open>The direction sampled\<close>







section \<open>Properties of the frame pacer\<close>

lemma DOME_FRAME_DURATION_eq: "DOME_FRAME_DURATION = 4691249611844267 / 140737488355328"
  by (simp add: DOME_FRAME_DURATION_def DOME_TARGET_FPS_def round_def)

lemma DOME_FRAME_DURATION_near:
  "1000 / real DOME_TARGET_FPS < DOME_FRAME_DURATION"
  "DOME_FRAME_DURATION < 1000 / real DOME_TARGET_FPS + 1 / 10 ^ 14"
  by (simp_all add: DOME_FRAME_DURATION_eq DOME_TARGET_FPS_def)

lemma DOME_FRAME_DURATION_pos: "0 < DOME_FRAME_DURATION"
  by (simp add: DOME_FRAME_DURATION_eq)

lemma js_rem_floor:
  assumes "0 \<le> a" "0 < b"
  shows "js_rem a b = a - b * of_int \<lfloor>a / b\<rfloor>"
  using assms by (simp add: js_rem_def)

lemma pacer_skip:
  assumes "DOME_MODE s" "T - lastFrameTime s < DOME_FRAME_DURATION"
  shows "shouldRenderDomeFrame T s = (False, s)"
  using assms by (simp add: shouldRenderDomeFrame_def Let_def)

lemma pacer_produce:
  assumes "DOME_MODE s" "\<not> T - lastFrameTime s < DOME_FRAME_DURATION"
  shows "shouldRenderDomeFrame T s =
           (True,
            (if (domeFrameCount s + 1) mod 30 = 0
             then console_log (LogDomeFrame (domeFrameCount s + 1)) else id)
              (s\<lparr>lastFrameTime := T - js_rem (T - lastFrameTime s) DOME_FRAME_DURATION,
                 domeFrameCount := domeFrameCount s + 1\<rparr>))"
  using assms by (simp add: shouldRenderDomeFrame_def Let_def)

lemma pacer_produce_fields:
  assumes "DOME_MODE s" "\<not> T - lastFrameTime s < DOME_FRAME_DURATION"
  shows "fst (shouldRenderDomeFrame T s)"
    and "DOME_MODE (snd (shouldRenderDomeFrame T s))"
    and "lastFrameTime (snd (shouldRenderDomeFrame T s)) =
           lastFrameTime s
             + DOME_FRAME_DURATION * of_int \<lfloor>(T - lastFrameTime s) / DOME_FRAME_DURATION\<rfloor>"
    and "domeFrameCount (snd (shouldRenderDomeFrame T s)) = domeFrameCount s + 1"
proof -
  have e: "0 \<le> T - lastFrameTime s"
    using assms(2) DOME_FRAME_DURATION_pos by linarith
  show "fst (shouldRenderDomeFrame T s)"
    and "DOME_MODE (snd (shouldRenderDomeFrame T s))"
    and "domeFrameCount (snd (shouldRenderDomeFrame T s)) = domeFrameCount s + 1"
    using assms by (simp_all add: pacer_produce console_log_def)
  show "lastFrameTime (snd (shouldRenderDomeFrame T s)) =
           lastFrameTime s
             + DOME_FRAME_DURATION * of_int \<lfloor>(T - lastFrameTime s) / DOME_FRAME_DURATION\<rfloor>"
    using assms js_rem_floor [OF e DOME_FRAME_DURATION_pos]
    by (simp add: pacer_produce console_log_def)
qed

lemma successively_last_ge:
  "successively (\<lambda>a b. a \<le> b \<and> b - a \<le> d) (t # ts) \<Longrightarrow> (t :: real) \<le> last (t # ts)"
proof (induction ts arbitrary: t)
  case Nil
  then show ?case by simp
next
  case (Cons u us)
  then have "t \<le> u" and "successively (\<lambda>a b. a \<le> b \<and> b - a \<le> d) (u # us)"
    by simp_all
  with Cons.IH [of u] show ?case by simp
qed

lemma floor_shift:
  fixes x d :: real
  assumes "0 < d"
  shows "\<lfloor>(x - (l + d * of_int k)) / d\<rfloor> = \<lfloor>(x - l) / d\<rfloor> - k"
proof -
  have "(x - (l + d * of_int k)) / d = (x - l) / d - of_int k"
    using assms by (simp add: field_simps)
  then show ?thesis by simp
qed

lemma produced_steady:
  assumes "DOME_MODE s"
    and "successively (\<lambda>a b. a \<le> b \<and> b - a \<le> DOME_FRAME_DURATION) (t # ts)"
    and "lastFrameTime s \<le> t" and "t - lastFrameTime s < DOME_FRAME_DURATION"
  shows "produced ts s = nat \<lfloor>(last (t # ts) - lastFrameTime s) / DOME_FRAME_DURATION\<rfloor>"
  using assms
proof (induction ts arbitrary: s t)
  case Nil
  then have "\<lfloor>(t - lastFrameTime s) / DOME_FRAME_DURATION\<rfloor> = 0"
    using DOME_FRAME_DURATION_pos by (simp add: floor_eq_iff)
  then show ?case by simp
next
  case (Cons u us)
  let ?D = DOME_FRAME_DURATION
  let ?L = "lastFrameTime s"
  have tu: "t \<le> u" "u - t \<le> ?D" and rest: "successively (\<lambda>a b. a \<le> b \<and> b - a \<le> ?D) (u # us)"
    using Cons.prems(2) by simp_all
  have ul: "u \<le> last (u # us)"
    using rest by (rule successively_last_ge)
  have lst: "last (t # u # us) = last (u # us)"
    by simp
  show ?case
  proof (cases "u - ?L < ?D")
    case True
    then have "shouldRenderDomeFrame u s = (False, s)"
      using Cons.prems(1) by (simp add: pacer_skip)
    moreover have "produced us s = nat \<lfloor>(last (u # us) - ?L) / ?D\<rfloor>"
      using Cons.IH [OF Cons.prems(1) rest _ True] tu Cons.prems(3) by simp
    ultimately have "produced (u # us) s = nat \<lfloor>(last (u # us) - ?L) / ?D\<rfloor>"
      by simp
    then show ?thesis
      unfolding lst .
  next
    case False
    let ?s1 = "snd (shouldRenderDomeFrame u s)"
    have lt2: "u - ?L < 2 * ?D"
      using tu Cons.prems(4) by linarith
    have k: "\<lfloor>(u - ?L) / ?D\<rfloor> = 1"
      using False lt2 DOME_FRAME_DURATION_pos by (simp add: floor_eq_iff field_simps)
    have L1: "lastFrameTime ?s1 = ?L + ?D * of_int 1"
      using pacer_produce_fields(3) [OF Cons.prems(1) False] k by simp
    have "produced us ?s1 = nat \<lfloor>(last (u # us) - lastFrameTime ?s1) / ?D\<rfloor>"
    proof (rule Cons.IH [OF pacer_produce_fields(2) [OF Cons.prems(1) False] rest])
      show "lastFrameTime ?s1 \<le> u" using L1 False by simp
      show "u - lastFrameTime ?s1 < ?D" using L1 lt2 by simp
    qed
    also have "\<lfloor>(last (u # us) - lastFrameTime ?s1) / ?D\<rfloor> = \<lfloor>(last (u # us) - ?L) / ?D\<rfloor> - 1"
      unfolding L1 using floor_shift [OF DOME_FRAME_DURATION_pos, of "last (u # us)" ?L 1] by simp
    finally have p: "produced us ?s1 = nat (\<lfloor>(last (u # us) - ?L) / ?D\<rfloor> - 1)" .
    have "1 \<le> (last (u # us) - ?L) / ?D"
      using ul False DOME_FRAME_DURATION_pos by (simp add: field_simps)
    then have "1 \<le> \<lfloor>(last (u # us) - ?L) / ?D\<rfloor>"
      by (simp add: le_floor_iff)
    then have "Suc (nat (\<lfloor>(last (u # us) - ?L) / ?D\<rfloor> - 1)) = nat \<lfloor>(last (u # us) - ?L) / ?D\<rfloor>"
      by linarith
    moreover have "produced (u # us) s = Suc (produced us ?s1)"
      using pacer_produce_fields(1) [OF Cons.prems(1) False] by (simp add: case_prod_beta)
    ultimately have "produced (u # us) s = nat \<lfloor>(last (u # us) - ?L) / ?D\<rfloor>"
      using p by simp
    then show ?thesis
      unfolding lst .
  qed
qed


lemma sorted_last_ge: "sorted (t # ts) \<Longrightarrow> (t :: real) \<le> last (t # ts)"
  by (induction ts arbitrary: t) auto

lemma floor_mult_le:
  fixes x d :: real
  assumes "0 < d"
  shows "d * of_int \<lfloor>x / d\<rfloor> \<le> x"
proof -
  have "d * of_int \<lfloor>x / d\<rfloor> \<le> d * (x / d)"
    using assms by (intro mult_left_mono of_int_floor_le) simp
  also have "\<dots> = x"
    using assms by simp
  finally show ?thesis .
qed

lemma produced_at_most:
  assumes "DOME_MODE s" and "sorted (t # ts)" and "lastFrameTime s \<le> t"
  shows "produced ts s \<le> nat \<lfloor>(last (t # ts) - lastFrameTime s) / DOME_FRAME_DURATION\<rfloor>"
  using assms
proof (induction ts arbitrary: s t)
  case Nil
  then show ?case by simp
next
  case (Cons u us)
  let ?D = DOME_FRAME_DURATION
  let ?L = "lastFrameTime s"
  have tu: "t \<le> u" and rest: "sorted (u # us)"
    using Cons.prems(2) by simp_all
  have ul: "u \<le> last (u # us)"
    using rest by (rule sorted_last_ge)
  have lst: "last (t # u # us) = last (u # us)"
    by simp
  show ?case
  proof (cases "u - ?L < ?D")
    case True
    then have "shouldRenderDomeFrame u s = (False, s)"
      using Cons.prems(1) by (simp add: pacer_skip)
    moreover have "produced us s \<le> nat \<lfloor>(last (u # us) - ?L) / ?D\<rfloor>"
      using Cons.IH [OF Cons.prems(1) rest] tu Cons.prems(3) by simp
    ultimately have "produced (u # us) s \<le> nat \<lfloor>(last (u # us) - ?L) / ?D\<rfloor>"
      by simp
    then show ?thesis
      unfolding lst .
  next
    case False
    let ?s1 = "snd (shouldRenderDomeFrame u s)"
    let ?k = "\<lfloor>(u - ?L) / ?D\<rfloor>"
    have k1: "1 \<le> ?k"
      using False DOME_FRAME_DURATION_pos by (simp add: le_floor_iff field_simps)
    have L1: "lastFrameTime ?s1 = ?L + ?D * of_int ?k"
      using pacer_produce_fields(3) [OF Cons.prems(1) False] .
    have "?D * of_int ?k \<le> u - ?L"
      using DOME_FRAME_DURATION_pos by (rule floor_mult_le)
    then have L1u: "lastFrameTime ?s1 \<le> u"
      using L1 by simp
    have "produced us ?s1 \<le> nat \<lfloor>(last (u # us) - lastFrameTime ?s1) / ?D\<rfloor>"
      by (rule Cons.IH [OF pacer_produce_fields(2) [OF Cons.prems(1) False] rest L1u])
    also have "\<lfloor>(last (u # us) - lastFrameTime ?s1) / ?D\<rfloor> = \<lfloor>(last (u # us) - ?L) / ?D\<rfloor> - ?k"
      unfolding L1 using floor_shift [OF DOME_FRAME_DURATION_pos, of "last (u # us)" ?L ?k] by simp
    finally have p: "produced us ?s1 \<le> nat (\<lfloor>(last (u # us) - ?L) / ?D\<rfloor> - ?k)" .
    have "(u - ?L) / ?D \<le> (last (u # us) - ?L) / ?D"
      using ul DOME_FRAME_DURATION_pos by (simp add: divide_right_mono)
    then have "?k \<le> \<lfloor>(last (u # us) - ?L) / ?D\<rfloor>"
      by (rule floor_mono)
    then have "Suc (nat (\<lfloor>(last (u # us) - ?L) / ?D\<rfloor> - ?k)) \<le> nat \<lfloor>(last (u # us) - ?L) / ?D\<rfloor>"
      using k1 by linarith
    moreover have "produced (u # us) s = Suc (produced us ?s1)"
      using pacer_produce_fields(1) [OF Cons.prems(1) False] by (simp add: case_prod_beta)
    ultimately have "produced (u # us) s \<le> nat \<lfloor>(last (u # us) - ?L) / ?D\<rfloor>"
      using p by linarith
    then show ?thesis
      unfolding lst .
  qed
qed

lemma pacer_keeps_mode: "DOME_MODE (snd (shouldRenderDomeFrame T s)) = DOME_MODE s"
  by (simp add: shouldRenderDomeFrame_def Let_def console_log_def)

lemma paced_counts:
  "DOME_MODE s \<Longrightarrow> domeFrameCount (paced ts s) = domeFrameCount s + produced ts s"
proof (induction ts arbitrary: s)
  case Nil
  then show ?case by simp
next
  case (Cons u us)
  show ?case
  proof (cases "u - lastFrameTime s < DOME_FRAME_DURATION")
    case True
    then show ?thesis
      using Cons.IH [OF Cons.prems] Cons.prems by (simp add: pacer_skip)
  next
    case False
    then show ?thesis
      using Cons.IH [OF pacer_produce_fields(2) [OF Cons.prems False]]
        pacer_produce_fields(1,4) [OF Cons.prems False]
      by (simp add: case_prod_beta)
  qed
qed

lemma window_frames:
  assumes "l \<le> x"
  shows "(x - l) / DOME_FRAME_DURATION \<le> real DOME_TARGET_FPS * ((x - l) / 1000)"
proof -
  have "(x - l) / DOME_FRAME_DURATION \<le> (x - l) / (100 / 3)"
    using assms by (intro divide_left_mono) (simp_all add: DOME_FRAME_DURATION_eq)
  also have "(x - l) / (100 / 3) = real DOME_TARGET_FPS * ((x - l) / 1000)"
    by (simp add: DOME_TARGET_FPS_def)
  finally show ?thesis .
qed

lemma count_in_window:
  fixes w :: real
  assumes "0 \<le> w"
  shows "w - 2 < real (nat \<lfloor>w\<rfloor>)" and "real (nat \<lfloor>w\<rfloor>) \<le> w"
  using assms by linarith+

lemma dome_on_eq:
  "dome_on = (init 1920 1080 1 True)
      \<lparr>DOME_MODE := True, cubeCamera := True, lastFrameTime := 0, domeFrameCount := 0,
       console := [LogDomeMode True, LogDomeInitialized]\<rparr>"
  by (simp add: dome_on_def domeKeydown_def init_def console_log_def setupDomeProjection_def Let_def)


text \<open>
  Claim C3, as the code has it. In dome mode a callback at time \<open>T\<close> with
  \<open>T - lastFrameTime < frameDuration\<close> is answered "skip" and leaves the state as it was;
  any other callback is answered "produce", sets \<open>lastFrameTime\<close> to
  \<open>T - (elapsed % frameDuration)\<close>, which is \<open>lastFrameTime\<close> plus a whole number of frame
  durations, and increments the frame counter. When no two consecutive callbacks (the
  first counted from \<open>lastFrameTime\<close>) are more than one frame duration apart, the number
  of "produce" answers is within two of the window divided by the frame duration, and
  below \<open>targetFPS\<close> times the window in seconds plus one; for callbacks in any
  non-decreasing order the latter still holds. The frame duration is the double nearest
  to \<open>1000 / targetFPS\<close>. The bounds leave a frame of slack: the code subtracts in double
  arithmetic, where a callback that falls on a frame boundary can be decided either way.
\<close>

theorem pacer_rate:
  "(DOME_MODE s \<and> T - lastFrameTime s < DOME_FRAME_DURATION \<longrightarrow>
      shouldRenderDomeFrame T s = (False, s)) \<and>
   (DOME_MODE s \<and> \<not> T - lastFrameTime s < DOME_FRAME_DURATION \<longrightarrow>
      fst (shouldRenderDomeFrame T s) \<and>
      lastFrameTime (snd (shouldRenderDomeFrame T s)) =
        T - js_rem (T - lastFrameTime s) DOME_FRAME_DURATION \<and>
      js_rem (T - lastFrameTime s) DOME_FRAME_DURATION =
        (T - lastFrameTime s)
          - DOME_FRAME_DURATION * of_int \<lfloor>(T - lastFrameTime s) / DOME_FRAME_DURATION\<rfloor> \<and>
      domeFrameCount (snd (shouldRenderDomeFrame T s)) = domeFrameCount s + 1) \<and>
   (DOME_MODE s \<and>
    successively (\<lambda>a b. a \<le> b \<and> b - a \<le> DOME_FRAME_DURATION) (lastFrameTime s # ts) \<longrightarrow>
      (last (lastFrameTime s # ts) - lastFrameTime s) / DOME_FRAME_DURATION - 2
        < real (produced ts s) \<and>
      real (produced ts s)
        < real DOME_TARGET_FPS * ((last (lastFrameTime s # ts) - lastFrameTime s) / 1000) + 1 \<and>
      domeFrameCount (paced ts s) = domeFrameCount s + produced ts s) \<and>
   (DOME_MODE s \<and> sorted (lastFrameTime s # ts) \<longrightarrow>
      real (produced ts s)
        < real DOME_TARGET_FPS * ((last (lastFrameTime s # ts) - lastFrameTime s) / 1000) + 1) \<and>
   1000 / real DOME_TARGET_FPS < DOME_FRAME_DURATION \<and>
   DOME_FRAME_DURATION < 1000 / real DOME_TARGET_FPS + 1 / 10 ^ 14"
proof (intro conjI impI)
  assume "DOME_MODE s \<and> T - lastFrameTime s < DOME_FRAME_DURATION"
  then show "shouldRenderDomeFrame T s = (False, s)"
    by (simp add: pacer_skip)
next
  assume a: "DOME_MODE s \<and> \<not> T - lastFrameTime s < DOME_FRAME_DURATION"
  then have m: "DOME_MODE s" and e: "\<not> T - lastFrameTime s < DOME_FRAME_DURATION"
    by simp_all
  have e0: "0 \<le> T - lastFrameTime s"
    using e DOME_FRAME_DURATION_pos by linarith
  show "fst (shouldRenderDomeFrame T s)"
    by (rule pacer_produce_fields(1) [OF m e])
  show "domeFrameCount (snd (shouldRenderDomeFrame T s)) = domeFrameCount s + 1"
    by (rule pacer_produce_fields(4) [OF m e])
  show "js_rem (T - lastFrameTime s) DOME_FRAME_DURATION =
        (T - lastFrameTime s)
          - DOME_FRAME_DURATION * of_int \<lfloor>(T - lastFrameTime s) / DOME_FRAME_DURATION\<rfloor>"
    by (rule js_rem_floor [OF e0 DOME_FRAME_DURATION_pos])
  show "lastFrameTime (snd (shouldRenderDomeFrame T s)) =
        T - js_rem (T - lastFrameTime s) DOME_FRAME_DURATION"
    using m e by (simp add: pacer_produce console_log_def)
next
  assume a: "DOME_MODE s \<and>
    successively (\<lambda>a b. a \<le> b \<and> b - a \<le> DOME_FRAME_DURATION) (lastFrameTime s # ts)"
  let ?w = "last (lastFrameTime s # ts) - lastFrameTime s"
  have w0: "lastFrameTime s \<le> last (lastFrameTime s # ts)"
    using a by (intro successively_last_ge [of DOME_FRAME_DURATION]) simp
  then have q0: "0 \<le> ?w / DOME_FRAME_DURATION"
    using DOME_FRAME_DURATION_pos by simp
  have p: "produced ts s = nat \<lfloor>?w / DOME_FRAME_DURATION\<rfloor>"
    by (rule produced_steady) (use a DOME_FRAME_DURATION_pos in simp_all)
  show "?w / DOME_FRAME_DURATION - 2 < real (produced ts s)"
    unfolding p by (rule count_in_window(1) [OF q0])
  have "real (produced ts s) \<le> ?w / DOME_FRAME_DURATION"
    unfolding p by (rule count_in_window(2) [OF q0])
  also have "\<dots> \<le> real DOME_TARGET_FPS * (?w / 1000)"
    by (rule window_frames [OF w0])
  finally show "real (produced ts s) < real DOME_TARGET_FPS * (?w / 1000) + 1"
    by simp
  show "domeFrameCount (paced ts s) = domeFrameCount s + produced ts s"
    using a by (simp add: paced_counts)
next
  assume b: "DOME_MODE s \<and> sorted (lastFrameTime s # ts)"
  let ?w = "last (lastFrameTime s # ts) - lastFrameTime s"
  have w0: "lastFrameTime s \<le> last (lastFrameTime s # ts)"
    using b by (intro sorted_last_ge) simp
  then have q0: "0 \<le> ?w / DOME_FRAME_DURATION"
    using DOME_FRAME_DURATION_pos by simp
  have "produced ts s \<le> nat \<lfloor>?w / DOME_FRAME_DURATION\<rfloor>"
    by (rule produced_at_most) (use b in simp_all)
  then have "real (produced ts s) \<le> real (nat \<lfloor>?w / DOME_FRAME_DURATION\<rfloor>)"
    by simp
  also have "\<dots> \<le> ?w / DOME_FRAME_DURATION"
    by (rule count_in_window(2) [OF q0])
  also have "\<dots> \<le> real DOME_TARGET_FPS * (?w / 1000)"
    by (rule window_frames [OF w0])
  finally show "real (produced ts s) < real DOME_TARGET_FPS * (?w / 1000) + 1"
    by simp
next
  show "1000 / real DOME_TARGET_FPS < DOME_FRAME_DURATION"
    by (rule DOME_FRAME_DURATION_near(1))
  show "DOME_FRAME_DURATION < 1000 / real DOME_TARGET_FPS + 1 / 10 ^ 14"
    by (rule DOME_FRAME_DURATION_near(2))
qed

theorem pacer_rate_witness:
  "DOME_MODE dome_on \<and> lastFrameTime dome_on = 0 \<and>
   shouldRenderDomeFrame 10 dome_on = (False, dome_on) \<and>
   fst (shouldRenderDomeFrame 40 dome_on) \<and>
   lastFrameTime (snd (shouldRenderDomeFrame 40 dome_on)) = DOME_FRAME_DURATION \<and>
   domeFrameCount (snd (shouldRenderDomeFrame 40 dome_on)) = 1 \<and>
   produced [20, 40, 70] dome_on = 2 \<and>
   70 / DOME_FRAME_DURATION - 2 < real (produced [20, 40, 70] dome_on) \<and>
   real (produced [20, 40, 70] dome_on) < real DOME_TARGET_FPS * (70 / 1000) + 1 \<and>
   domeFrameCount (paced [20, 40, 70] dome_on) = produced [20, 40, 70] dome_on \<and>
   sorted (lastFrameTime dome_on # [20, 40, 70])"
proof -
  have m: "DOME_MODE dome_on" and l: "lastFrameTime dome_on = 0"
    and c: "domeFrameCount dome_on = 0"
    by (simp_all add: dome_on_eq init_def)
  have skip: "DOME_MODE dome_on \<and> 10 - lastFrameTime dome_on < DOME_FRAME_DURATION"
    by (simp add: m l DOME_FRAME_DURATION_eq)
  have go: "DOME_MODE dome_on \<and> \<not> 40 - lastFrameTime dome_on < DOME_FRAME_DURATION"
    by (simp add: m l DOME_FRAME_DURATION_eq)
  have steady: "DOME_MODE dome_on \<and>
      successively (\<lambda>a b. a \<le> b \<and> b - a \<le> DOME_FRAME_DURATION)
        (lastFrameTime dome_on # [20, 40, 70])"
    by (simp add: m l DOME_FRAME_DURATION_eq)
  have r: "40 - js_rem (40 - lastFrameTime dome_on) DOME_FRAME_DURATION = DOME_FRAME_DURATION"
    by (simp add: l js_rem_def DOME_FRAME_DURATION_eq)
  have w: "last (lastFrameTime dome_on # [20, 40, 70]) - lastFrameTime dome_on = 70"
    by (simp add: l)
  have n: "produced [20, 40, 70] dome_on = 2"
    by (simp add: dome_on_eq init_def shouldRenderDomeFrame_def Let_def DOME_FRAME_DURATION_eq
          js_rem_def)
  have one: "shouldRenderDomeFrame 10 dome_on = (False, dome_on)"
    using skip pacer_rate [of dome_on 10 "[20, 40, 70]"] by blast
  have two: "fst (shouldRenderDomeFrame 40 dome_on) \<and>
      lastFrameTime (snd (shouldRenderDomeFrame 40 dome_on)) =
        40 - js_rem (40 - lastFrameTime dome_on) DOME_FRAME_DURATION \<and>
      domeFrameCount (snd (shouldRenderDomeFrame 40 dome_on)) = domeFrameCount dome_on + 1"
    using go pacer_rate [of dome_on 40 "[20, 40, 70]"] by blast
  have three: "(last (lastFrameTime dome_on # [20, 40, 70]) - lastFrameTime dome_on)
        / DOME_FRAME_DURATION - 2 < real (produced [20, 40, 70] dome_on) \<and>
      real (produced [20, 40, 70] dome_on)
        < real DOME_TARGET_FPS
            * ((last (lastFrameTime dome_on # [20, 40, 70]) - lastFrameTime dome_on) / 1000) + 1 \<and>
      domeFrameCount (paced [20, 40, 70] dome_on) =
        domeFrameCount dome_on + produced [20, 40, 70] dome_on"
    using steady pacer_rate [of dome_on 40 "[20, 40, 70]"] by blast
  have srt: "DOME_MODE dome_on \<and> sorted (lastFrameTime dome_on # [20, 40, 70])"
    by (simp add: m l)
  have four: "real (produced [20, 40, 70] dome_on)
        < real DOME_TARGET_FPS
            * ((last (lastFrameTime dome_on # [20, 40, 70]) - lastFrameTime dome_on) / 1000) + 1"
    using srt pacer_rate [of dome_on 40 "[20, 40, 70]"] by blast
  show ?thesis
    using m l c one two three four srt n
    unfolding r w by simp
qed

text \<open>
  Sixty callbacks within one second, in bursts: the pacer produces ten frames where
  \<open>targetFPS\<close> times the window is a little under thirty.
\<close>

theorem bursty_callbacks_underproduce:
  "DOME_MODE dome_on \<and> lastFrameTime dome_on = 0 \<and>
   sorted (bursty 10) \<and> length (bursty 10) = 60 \<and> last (bursty 10) = 995 \<and>
   produced (bursty 10) dome_on = 10 \<and>
   real DOME_TARGET_FPS * ((last (bursty 10) - lastFrameTime dome_on) / 1000) = 597 / 20"
proof -
  have m: "DOME_MODE dome_on" and l: "lastFrameTime dome_on = 0"
    by (simp_all add: dome_on_eq init_def)
  have shape: "sorted (bursty 10) \<and> length (bursty 10) = 60 \<and> last (bursty 10) = 995"
    by (simp add: bursty_def burst_def upt_rec)
  have count: "produced (bursty 10) dome_on = 10"
    by (simp add: bursty_def burst_def upt_rec dome_on_eq init_def shouldRenderDomeFrame_def
          Let_def DOME_FRAME_DURATION_eq js_rem_def)
  have "real DOME_TARGET_FPS * ((995 - 0) / 1000) = 597 / 20"
    by (simp add: DOME_TARGET_FPS_def)
  then show ?thesis
    using m l shape count by simp
qed

lemma recordingKeydown_other:
  "key \<noteq> ''r'' \<Longrightarrow> key \<noteq> ''R'' \<Longrightarrow> key \<noteq> ''i'' \<Longrightarrow> key \<noteq> ''I'' \<Longrightarrow> key \<noteq> ''s'' \<Longrightarrow> key \<noteq> ''S''
     \<Longrightarrow> recordingKeydown key date url s = s"
  by (simp add: recordingKeydown_def Let_def)

lemma domeKeydown_toggle:
  assumes "key = ''d'' \<or> key = ''D''"
  shows "DOME_MODE (domeKeydown key now url s) = (\<not> DOME_MODE s)"
    and "lastFrameTime (domeKeydown key now url s) = now"
    and "domeFrameCount (domeKeydown key now url s) = 0"
  using assms
  by (auto simp add: domeKeydown_def Let_def console_log_def setupDomeProjection_def)

lemma step_toggle:
  assumes "key = ''d'' \<or> key = ''D''"
  shows "step (KeyDown key now date url) s = domeKeydown key now url s"
  using assms by (auto simp add: recordingKeydown_other)

lemma pacer_after_reset:
  assumes "DOME_MODE s" "lastFrameTime s = now"
  shows "fst (shouldRenderDomeFrame T s) = (DOME_FRAME_DURATION \<le> T - now)"
  using assms by (auto simp add: shouldRenderDomeFrame_def Let_def)

lemma dome_off_mode: "\<not> DOME_MODE dome_off"
  using domeKeydown_toggle(1) [of "''d''" 500 "[]" dome_on]
  by (simp add: dome_off_def recordingKeydown_other dome_on_eq init_def)

text \<open>
  Claim C4, as the code has it. The D key toggles dome mode and, whichever way it
  toggles, sets \<open>lastFrameTime\<close> to the time of the key press and the frame counter to 0.
  The first callback after dome mode was switched on is answered "produce" exactly when
  at least one frame duration has passed since the key press; an earlier one is skipped.
\<close>

theorem dome_toggle_resets:
  "key = ''d'' \<or> key = ''D'' \<longrightarrow>
     DOME_MODE (step (KeyDown key now date url) s) = (\<not> DOME_MODE s) \<and>
     lastFrameTime (step (KeyDown key now date url) s) = now \<and>
     domeFrameCount (step (KeyDown key now date url) s) = 0 \<and>
     (\<not> DOME_MODE s \<longrightarrow>
        fst (shouldRenderDomeFrame T (step (KeyDown key now date url) s)) =
          (DOME_FRAME_DURATION \<le> T - now))"
proof
  assume k: "key = ''d'' \<or> key = ''D''"
  have st: "step (KeyDown key now date url) s = domeKeydown key now url s"
    using k by (rule step_toggle)
  show "DOME_MODE (step (KeyDown key now date url) s) = (\<not> DOME_MODE s) \<and>
     lastFrameTime (step (KeyDown key now date url) s) = now \<and>
     domeFrameCount (step (KeyDown key now date url) s) = 0 \<and>
     (\<not> DOME_MODE s \<longrightarrow>
        fst (shouldRenderDomeFrame T (step (KeyDown key now date url) s)) =
          (DOME_FRAME_DURATION \<le> T - now))"
    unfolding st
    using domeKeydown_toggle [OF k, of now url s]
      pacer_after_reset [of "domeKeydown key now url s" now T]
    by simp
qed


theorem dome_toggle_resets_witness:
  "\<not> DOME_MODE dome_off \<and> DOME_MODE dome_again \<and> lastFrameTime dome_again = 1000 \<and>
   domeFrameCount dome_again = 0 \<and> fst (shouldRenderDomeFrame 1040 dome_again)"
proof -
  have off: "\<not> DOME_MODE dome_off"
    by (rule dome_off_mode)
  have "DOME_FRAME_DURATION \<le> 1040 - 1000"
    by (simp add: DOME_FRAME_DURATION_eq)
  then show ?thesis
    using off dome_toggle_resets [of "''d''" 1000 0 "[]" dome_off 1040]
    by (simp add: dome_again_def)
qed

text \<open>
  Dome mode switched on at 0, off at 500 and on again at 1000: the callback at 1005 is
  skipped.
\<close>

theorem first_callback_after_reactivation_skips:
  "\<not> DOME_MODE dome_off \<and> DOME_MODE dome_again \<and> lastFrameTime dome_again = 1000 \<and>
   \<not> fst (shouldRenderDomeFrame 1005 dome_again)"
proof -
  have a: "DOME_MODE dome_again" and b: "lastFrameTime dome_again = 1000"
    using dome_off_mode domeKeydown_toggle [of "''d''" 1000 "[]" dome_off]
    by (simp_all add: dome_again_def recordingKeydown_other)
  have "\<not> DOME_FRAME_DURATION \<le> 1005 - 1000"
    by (simp add: DOME_FRAME_DURATION_eq)
  then show ?thesis
    using dome_off_mode a b pacer_after_reset [OF a b, of 1005] by simp
qed

section \<open>Properties of the simulation clock\<close>

lemma pacer_keeps_clock:
  "time (snd (shouldRenderDomeFrame T s)) = time s"
  "speed (snd (shouldRenderDomeFrame T s)) = speed s"
  by (simp_all add: shouldRenderDomeFrame_def Let_def console_log_def)

lemma render_time:
  "time (render hdl url s) = time s + frameDelta hdl s * speed s * 0.5"
  by (simp add: render_def Let_def renderDome_def isImageSequenceMode_def
        captureImageSequenceFrame_def console_log_def)

lemma frameDelta_after_pacer:
  "frameDelta hdl (snd (shouldRenderDomeFrame T s)) = frameDelta hdl s"
  by (simp add: frameDelta_def isDomeMode_def pacer_keeps_mode)

text \<open>
  Claim C5. In dome mode \<open>render\<close> advances the clock by the fixed delta \<open>1 / targetFPS\<close>
  (scaled by the effect speed and one half), whatever the host measured, and the main
  loop does so once per produced frame and not at all on a skipped callback; outside dome
  mode the delta is the one the host measured.
\<close>

theorem dome_clock_fixed_delta:
  "(DOME_MODE s \<longrightarrow>
      frameDelta hostDelta s = 1 / real DOME_TARGET_FPS \<and>
      time (render hostDelta url s) = time s + 1 / real DOME_TARGET_FPS * speed s * 0.5 \<and>
      time (animate now hostDelta url s) =
        (if fst (shouldRenderDomeFrame now s)
         then time s + 1 / real DOME_TARGET_FPS * speed s * 0.5 else time s)) \<and>
   (\<not> DOME_MODE s \<longrightarrow>
      frameDelta hostDelta s = hostDelta \<and>
      time (render hostDelta url s) = time s + hostDelta * speed s * 0.5 \<and>
      time (animate now hostDelta url s) = time s + hostDelta * speed s * 0.5)"
proof (intro conjI impI)
  assume m: "DOME_MODE s"
  show d: "frameDelta hostDelta s = 1 / real DOME_TARGET_FPS"
    using m by (simp add: frameDelta_def isDomeMode_def getDomeTargetFPS_def)
  show "time (render hostDelta url s) = time s + 1 / real DOME_TARGET_FPS * speed s * 0.5"
    using d by (simp add: render_time)
  show "time (animate now hostDelta url s) =
        (if fst (shouldRenderDomeFrame now s)
         then time s + 1 / real DOME_TARGET_FPS * speed s * 0.5 else time s)"
    using m d frameDelta_after_pacer [of hostDelta now s]
    by (cases "shouldRenderDomeFrame now s"; cases "fst (shouldRenderDomeFrame now s)")
       (use pacer_keeps_clock [of now s] in \<open>simp_all add: animate_def isDomeMode_def render_time\<close>)
next
  assume m: "\<not> DOME_MODE s"
  show d: "frameDelta hostDelta s = hostDelta"
    using m by (simp add: frameDelta_def isDomeMode_def)
  show "time (render hostDelta url s) = time s + hostDelta * speed s * 0.5"
    using d by (simp add: render_time)
  show "time (animate now hostDelta url s) = time s + hostDelta * speed s * 0.5"
    using m d by (simp add: animate_def isDomeMode_def render_time)
qed

theorem dome_clock_fixed_delta_witness:
  "DOME_MODE dome_on \<and> \<not> DOME_MODE dome_off \<and>
   time (render 0.016 [] dome_on) = time dome_on + 1 / 30 * speed dome_on * 0.5 \<and>
   time (render 0.007 [] dome_on) = time dome_on + 1 / 30 * speed dome_on * 0.5 \<and>
   time (render 0.016 [] dome_off) = time dome_off + 0.016 * speed dome_off * 0.5"
proof -
  have m: "DOME_MODE dome_on"
    by (simp add: dome_on_eq init_def)
  show ?thesis
    using m dome_off_mode
      dome_clock_fixed_delta [of dome_on "0.016" "[]" 0]
      dome_clock_fixed_delta [of dome_on "0.007" "[]" 0]
      dome_clock_fixed_delta [of dome_off "0.016" "[]" 0]
    by (simp add: DOME_TARGET_FPS_def)
qed

section \<open>Properties of the frame counter\<close>

lemma count_pacer: "domeFrameCount s \<le> domeFrameCount (snd (shouldRenderDomeFrame T s))"
  by (simp add: shouldRenderDomeFrame_def Let_def console_log_def)

lemma count_render: "domeFrameCount (render hdl url s) = domeFrameCount s"
  by (simp add: render_def Let_def renderDome_def captureImageSequenceFrame_def console_log_def)

lemma count_animate: "domeFrameCount s \<le> domeFrameCount (animate now hdl url s)"
  using count_pacer [of s now]
  by (cases "shouldRenderDomeFrame now s"; cases "fst (shouldRenderDomeFrame now s)")
     (simp_all add: animate_def count_render)

lemma count_exportDomeFrame: "domeFrameCount (exportDomeFrame url s) = domeFrameCount s"
  by (simp add: exportDomeFrame_def Let_def console_log_def setSize_def click_download_def)

lemma count_renderDomeFrameHighRes: "domeFrameCount (renderDomeFrameHighRes s) = domeFrameCount s"
  by (simp add: renderDomeFrameHighRes_def Let_def console_log_def setSize_def)

lemma count_startRecording:
  "domeFrameCount (startRecording s) = (if isRecording s then domeFrameCount s else 0)"
  by (simp add: startRecording_def Let_def console_log_def resetDomeFrameCount_def)

lemma count_stopRecording: "domeFrameCount (stopRecording s) = domeFrameCount s"
  by (simp add: stopRecording_def Let_def console_log_def mediaRecorder_stop_def
        split: option.splits)

lemma count_toggleRecording:
  "domeFrameCount (toggleRecording s) = (if isRecording s then domeFrameCount s else 0)"
  by (simp add: toggleRecording_def count_startRecording count_stopRecording)

lemma count_exportSingleFrame: "domeFrameCount (exportSingleFrame date url s) = domeFrameCount s"
  by (simp add: exportSingleFrame_def Let_def console_log_def setSize_def click_download_def)

lemma count_startImageSequence: "domeFrameCount (startImageSequence s) = domeFrameCount s"
  by (simp add: startImageSequence_def Let_def console_log_def setSize_def)

lemma count_stopImageSequence: "domeFrameCount (stopImageSequence s) = domeFrameCount s"
  by (simp add: stopImageSequence_def Let_def console_log_def setSize_def)

lemma count_toggleImageSequence: "domeFrameCount (toggleImageSequence s) = domeFrameCount s"
  by (simp add: toggleImageSequence_def count_startImageSequence count_stopImageSequence)

lemma count_capture: "domeFrameCount (captureImageSequenceFrame url s) = domeFrameCount s"
  by (simp add: captureImageSequenceFrame_def Let_def console_log_def)

lemma count_encoderFinalized: "domeFrameCount (encoderFinalized i d date s) = domeFrameCount s"
  by (simp add: encoderFinalized_def Let_def ondataavailable_def onstop_def console_log_def
        setSize_def click_download_def)

lemma count_domeKeydown:
  "domeFrameCount (domeKeydown key now url s) =
     (if key = ''d'' \<or> key = ''D'' then 0 else domeFrameCount s)"
  by (simp add: domeKeydown_def Let_def console_log_def setSize_def count_exportDomeFrame)

lemma domeKeydown_not_toggle:
  assumes "key \<noteq> ''d''" "key \<noteq> ''D''"
  shows "DOME_MODE (domeKeydown key now url s) = DOME_MODE s"
    and "isRecording (domeKeydown key now url s) = isRecording s"
  using assms
  by (simp_all add: domeKeydown_def Let_def console_log_def setSize_def exportDomeFrame_def
        click_download_def)

lemma count_recordingKeydown:
  "domeFrameCount (recordingKeydown key date url s) =
     (if (key = ''r'' \<or> key = ''R'') \<and> DOME_MODE s \<and> \<not> isRecording s then 0
      else domeFrameCount s)"
  by (simp add: recordingKeydown_def Let_def isDomeMode_def console_log_def
        count_toggleRecording count_exportSingleFrame count_toggleImageSequence)

lemma count_keydown:
  "domeFrameCount (step (KeyDown key now date url) s) =
     (if resets_counter (KeyDown key now date url) s then 0 else domeFrameCount s)"
proof (cases "key = ''d'' \<or> key = ''D''")
  case True
  then show ?thesis
    by (auto simp add: count_recordingKeydown count_domeKeydown)
next
  case False
  then show ?thesis
    using domeKeydown_not_toggle [of key now url s]
    by (auto simp add: count_recordingKeydown count_domeKeydown)
qed

text \<open>
  Claim C6, as the code has it. The frame counter is set to 0 by the D key (switching dome
  mode on or off), by \<open>startRecording\<close> when no recording is in progress (the R key in
  dome mode, \<open>toggleRecording\<close> or \<open>startRecording\<close> called directly) and by
  \<open>resetDomeFrameCount\<close>; no other event decreases it, so it is non-decreasing along
  every run without such an event.
\<close>

theorem frame_counter_steps:
  "(resets_counter e s \<longrightarrow> domeFrameCount (step e s) = 0) \<and>
   (\<not> resets_counter e s \<longrightarrow> domeFrameCount s \<le> domeFrameCount (step e s)) \<and>
   (quiet es s \<longrightarrow> domeFrameCount s \<le> domeFrameCount (run es s))"
proof -
  have one: "(resets_counter e s \<longrightarrow> domeFrameCount (step e s) = 0) \<and>
      (\<not> resets_counter e s \<longrightarrow> domeFrameCount s \<le> domeFrameCount (step e s))" for e s
  proof (cases e)
    case (KeyDown key now date url)
    then show ?thesis
      using count_keydown [of key now date url s] by auto
  next
    case (AnimationFrame now hdl url)
    then show ?thesis by (simp add: count_animate)
  next
    case (CallShouldRenderDomeFrame now)
    then show ?thesis by (simp add: count_pacer)
  qed (simp_all add: count_encoderFinalized runTimers_def onWindowResize_def setSize_def
         renderDome_def count_renderDomeFrameHighRes count_exportDomeFrame
         incrementDomeFrameCount_def resetDomeFrameCount_def count_toggleRecording
         count_startRecording count_stopRecording count_exportSingleFrame
         count_toggleImageSequence count_startImageSequence count_stopImageSequence
         count_capture)
  have many: "quiet es s \<Longrightarrow> domeFrameCount s \<le> domeFrameCount (run es s)" for s
  proof (induction es arbitrary: s)
    case Nil
    then show ?case by simp
  next
    case (Cons e es)
    then have "domeFrameCount s \<le> domeFrameCount (step e s)"
      using one [of e s] by simp
    also have "\<dots> \<le> domeFrameCount (run es (step e s))"
      using Cons by simp
    finally show ?case by simp
  qed
  show ?thesis
    using one [of e s] many [of s] by blast
qed

lemma two_frames_eq:
  "DOME_MODE two_frames \<and> \<not> isRecording two_frames \<and> domeFrameCount two_frames = 2"
  by (simp add: two_frames_def dome_on_eq init_def animate_def isDomeMode_def
        shouldRenderDomeFrame_def Let_def DOME_FRAME_DURATION_eq js_rem_def render_def
        renderDome_def isImageSequenceMode_def frameDelta_def)

theorem frame_counter_steps_witness:
  "resets_counter (KeyDown ''r'' 90 0 []) two_frames \<and>
   domeFrameCount (step (KeyDown ''r'' 90 0 []) two_frames) = 0 \<and>
   \<not> resets_counter (AnimationFrame 120 0.016 []) two_frames \<and>
   domeFrameCount two_frames \<le> domeFrameCount (step (AnimationFrame 120 0.016 []) two_frames) \<and>
   quiet [AnimationFrame 40 0.016 [], AnimationFrame 80 0.016 []] dome_on \<and>
   domeFrameCount dome_on \<le> domeFrameCount two_frames"
proof -
  have r: "resets_counter (KeyDown ''r'' 90 0 []) two_frames"
    using two_frames_eq by simp
  have q: "quiet [AnimationFrame 40 0.016 [], AnimationFrame 80 0.016 []] dome_on"
    by simp
  show ?thesis
    using r q
      frame_counter_steps [of "KeyDown ''r'' 90 0 []" two_frames "[]"]
      frame_counter_steps [of "AnimationFrame 120 0.016 []" two_frames "[]"]
      frame_counter_steps [of "AnimationFrame 120 0.016 []" dome_on
         "[AnimationFrame 40 0.016 [], AnimationFrame 80 0.016 []]"]
    by (simp add: two_frames_def)
qed

text \<open>
  Two frames produced in dome mode, then the R key: dome mode stays on and the counter is
  back at 0.
\<close>

theorem recording_resets_counter:
  "DOME_MODE two_frames \<and> domeFrameCount two_frames = 2 \<and>
   DOME_MODE (step (KeyDown ''r'' 90 0 []) two_frames) \<and>
   domeFrameCount (step (KeyDown ''r'' 90 0 []) two_frames) = 0"
proof -
  have "DOME_MODE (step (KeyDown ''r'' 90 0 []) two_frames)"
    using two_frames_eq
    by (simp add: domeKeydown_def recordingKeydown_def isDomeMode_def toggleRecording_def
          startRecording_def Let_def console_log_def resetDomeFrameCount_def
          mediaRecorder_start_def newMediaRecorder_def setSize_def)
  moreover have "domeFrameCount (step (KeyDown ''r'' 90 0 []) two_frames) = 0"
    using two_frames_eq count_keydown [of "''r''" 90 0 "[]" two_frames] by simp
  ultimately show ?thesis
    using two_frames_eq by simp
qed

section \<open>Properties of the recorder\<close>






















lemmas world_ops =
  domeKeydown_def recordingKeydown_def isDomeMode_def toggleRecording_def startRecording_def
  stopRecording_def Let_def console_log_def resetDomeFrameCount_def mediaRecorder_start_def
  mediaRecorder_stop_def newMediaRecorder_def setSize_def getDomeFrameCount_def
  setupDomeProjection_def click_download_def






lemma square_eq:
  "square = dome_on\<lparr>fullscreen1to1 := True, rendererSize := (1080, 1080),
                     console := console dome_on @ [LogAspectOn 1080]\<rparr>"
  by (simp add: square_def dome_on_eq init_def world_ops)

lemma String_of_date: "String_of_nat 1700000000000 = ''1700000000000''"
  by (simp add: String_of_nat.simps digit_char_def)

text \<open>
  Claim C7, at the square preview. In a 1920 by 1080 window with the surface at
  1080 by 1080, \<open>startRecording\<close> and \<open>stopRecording\<close> trigger no download and leave the
  surface at the recording resolution; the encoder's \<open>stop\<close> event then triggers the one
  download, named after the time, and sets the surface to the size of the window,
  1920 by 1080, not to the 1080 by 1080 it had before the recording.
\<close>

theorem recording_leaves_window_size:
  "rendererSize square = (1080, 1080) \<and> innerWidth square = 1920 \<and> innerHeight square = 1080 \<and>
   rendererSize (startRecording square) = (2048, 2048) \<and>
   downloads (stopRecording (startRecording square)) = [] \<and>
   rendererSize (stopRecording (startRecording square)) = (2048, 2048) \<and>
   downloads (encoderFinalized 0 ''webm'' 1700000000000 (stopRecording (startRecording square))) =
     [(''dome_recording_1700000000000.webm'', Blob [''webm''])] \<and>
   rendererSize (encoderFinalized 0 ''webm'' 1700000000000 (stopRecording (startRecording square))) =
     (1920, 1080)"
  by (simp add: square_eq dome_on_eq init_def world_ops encoderFinalized_def ondataavailable_def
        onstop_def String_of_date RECORDING_RESOLUTION_def)


text \<open>
  So the surface does not come back to the size it had before the recording.
\<close>

theorem recording_leaves_window_size_witness:
  "rendererSize (encoderFinalized 0 ''webm'' 1700000000000 (stopRecording (startRecording square)))
     \<noteq> rendererSize square"
  using recording_leaves_window_size by simp

text \<open>
  From any state without a recording in progress: nothing is downloaded before the
  encoder's \<open>stop\<close> event, one file is at it, and the surface then has the window's size.
\<close>

lemma recording_round_trip:
  assumes "\<not> isRecording s"
  shows "downloads (stopRecording (startRecording s)) = downloads s"
    and "rendererSize (stopRecording (startRecording s)) = (RECORDING_RESOLUTION, RECORDING_RESOLUTION)"
    and "downloads (encoderFinalized (length (encoders s)) data date (stopRecording (startRecording s))) =
           downloads s @ [(''dome_recording_'' @ String_of_nat date @ ''.webm'',
                           Blob (if length data > 0 then [data] else []))]"
    and "rendererSize (encoderFinalized (length (encoders s)) data date (stopRecording (startRecording s))) =
           (innerWidth s, innerHeight s)"
  using assms
  by (simp_all add: world_ops encoderFinalized_def ondataavailable_def onstop_def)

lemma domeKeydown_other:
  "key \<noteq> ''d'' \<Longrightarrow> key \<noteq> ''D'' \<Longrightarrow> key \<noteq> ''f'' \<Longrightarrow> key \<noteq> ''F'' \<Longrightarrow> key \<noteq> ''e'' \<Longrightarrow> key \<noteq> ''E''
     \<Longrightarrow> domeKeydown key now url s = s"
  by (simp add: domeKeydown_def Let_def)

text \<open>
  Claim C8, as the code has it. With dome mode inactive the R, I and S keys only write a
  line to the console: nothing is downloaded or scheduled, the surface keeps its size, no
  encoder is created and neither a recording nor an image sequence starts. The check is
  made by the key handler; of the functions themselves only \<open>exportSingleFrame\<close> has one,
  which reports and returns when the dome projection was never set up.
\<close>

theorem keys_outside_dome_mode:
  "(\<not> DOME_MODE s \<and> (key = ''r'' \<or> key = ''R'') \<longrightarrow>
      step (KeyDown key now date url) s = console_log LogEnableDomeFirstRecording s) \<and>
   (\<not> DOME_MODE s \<and> (key = ''i'' \<or> key = ''I'' \<or> key = ''s'' \<or> key = ''S'') \<longrightarrow>
      step (KeyDown key now date url) s = console_log LogEnableDomeFirst s) \<and>
   (\<not> DOME_MODE s \<and> key \<in> {''r'', ''R'', ''i'', ''I'', ''s'', ''S''} \<longrightarrow>
      downloads (step (KeyDown key now date url) s) = downloads s \<and>
      timers (step (KeyDown key now date url) s) = timers s \<and>
      rendererSize (step (KeyDown key now date url) s) = rendererSize s \<and>
      encoders (step (KeyDown key now date url) s) = encoders s \<and>
      isRecording (step (KeyDown key now date url) s) = isRecording s \<and>
      imageSequenceMode (step (KeyDown key now date url) s) = imageSequenceMode s) \<and>
   (\<not> cubeCamera s \<longrightarrow> exportSingleFrame date url s = console_log LogDomeNotInitialized s)"
proof -
  have r: "step (KeyDown key now date url) s = console_log LogEnableDomeFirstRecording s"
    if "\<not> DOME_MODE s" "key = ''r'' \<or> key = ''R''"
    using that by (auto simp add: domeKeydown_other recordingKeydown_def isDomeMode_def Let_def)
  have i: "step (KeyDown key now date url) s = console_log LogEnableDomeFirst s"
    if "\<not> DOME_MODE s" "key = ''i'' \<or> key = ''I'' \<or> key = ''s'' \<or> key = ''S''"
  proof -
    have d: "domeKeydown key now url s = s"
      using that(2) by (intro domeKeydown_other) auto
    have "recordingKeydown key date url s = console_log LogEnableDomeFirst s"
      using that by (elim disjE) (simp_all add: recordingKeydown_def isDomeMode_def Let_def)
    then show ?thesis
      by (simp add: d)
  qed
  have f: "downloads (step (KeyDown key now date url) s) = downloads s \<and>
      timers (step (KeyDown key now date url) s) = timers s \<and>
      rendererSize (step (KeyDown key now date url) s) = rendererSize s \<and>
      encoders (step (KeyDown key now date url) s) = encoders s \<and>
      isRecording (step (KeyDown key now date url) s) = isRecording s \<and>
      imageSequenceMode (step (KeyDown key now date url) s) = imageSequenceMode s"
    if m: "\<not> DOME_MODE s" and k: "key \<in> {''r'', ''R'', ''i'', ''I'', ''s'', ''S''}"
  proof (cases "key = ''r'' \<or> key = ''R''")
    case True
    show ?thesis
      unfolding r [OF m True] by (simp add: console_log_def)
  next
    case False
    then have "key = ''i'' \<or> key = ''I'' \<or> key = ''s'' \<or> key = ''S''"
      using k by auto
    then show ?thesis
      using i [OF m] by (simp add: console_log_def)
  qed
  have x: "exportSingleFrame date url s = console_log LogDomeNotInitialized s" if "\<not> cubeCamera s"
    using that by (simp add: exportSingleFrame_def)
  show ?thesis
    using r i f x by blast
qed

theorem keys_outside_dome_mode_witness:
  "\<not> DOME_MODE dome_off \<and>
   step (KeyDown ''r'' 600 0 []) dome_off = console_log LogEnableDomeFirstRecording dome_off \<and>
   step (KeyDown ''s'' 600 0 []) dome_off = console_log LogEnableDomeFirst dome_off \<and>
   downloads (step (KeyDown ''i'' 600 0 []) dome_off) = downloads dome_off \<and>
   rendererSize (step (KeyDown ''i'' 600 0 []) dome_off) = rendererSize dome_off \<and>
   \<not> cubeCamera (init 1920 1080 1 True) \<and>
   exportSingleFrame 0 [] (init 1920 1080 1 True) =
     console_log LogDomeNotInitialized (init 1920 1080 1 True)"
proof -
  have c: "\<not> cubeCamera (init 1920 1080 1 True)"
    by (simp add: init_def)
  have 1: "step (KeyDown ''r'' 600 0 []) dome_off =
             console_log LogEnableDomeFirstRecording dome_off"
    using dome_off_mode keys_outside_dome_mode [of dome_off "''r''" 600 0 "[]"]
    by (simp del: step.simps)
  have 2: "step (KeyDown ''s'' 600 0 []) dome_off = console_log LogEnableDomeFirst dome_off"
    using dome_off_mode keys_outside_dome_mode [of dome_off "''s''" 600 0 "[]"]
    by (simp del: step.simps)
  have 3: "downloads (step (KeyDown ''i'' 600 0 []) dome_off) = downloads dome_off \<and>
           rendererSize (step (KeyDown ''i'' 600 0 []) dome_off) = rendererSize dome_off"
    using dome_off_mode keys_outside_dome_mode [of dome_off "''i''" 600 0 "[]"]
    by (simp add: console_log_def del: step.simps)
  have 4: "exportSingleFrame 0 [] (init 1920 1080 1 True) =
             console_log LogDomeNotInitialized (init 1920 1080 1 True)"
    using c keys_outside_dome_mode [of "init 1920 1080 1 True" "''r''" 600 0 "[]"]
    by (simp del: step.simps)
  show ?thesis
    using dome_off_mode c 1 2 3 4 by (simp del: step.simps)
qed

lemma dome_off_eq:
  "dome_off = dome_on\<lparr>DOME_MODE := False, lastFrameTime := 500,
                       console := console dome_on @ [LogDomeMode False]\<rparr>"
  by (simp add: dome_off_def dome_on_eq init_def world_ops)

lemma String_of_4096: "String_of_nat 4096 = ''4096''"
  by (simp add: String_of_nat.simps digit_char_def)

text \<open>
  Dome mode switched on and off again, then the functions called directly:
  \<open>startRecording\<close> resizes the surface and starts an encoder, \<open>startImageSequence\<close> resizes
  it and starts a sequence, \<open>exportSingleFrame\<close> downloads a frame.
\<close>

theorem entry_points_act_outside_dome_mode:
  "\<not> DOME_MODE dome_off \<and>
   isRecording (startRecording dome_off) \<and>
   rendererSize dome_off = (1920, 1080) \<and>
   rendererSize (startRecording dome_off) = (2048, 2048) \<and>
   map phase (encoders (startRecording dome_off)) = [EncRecording] \<and>
   imageSequenceMode (startImageSequence dome_off) \<and>
   rendererSize (startImageSequence dome_off) = (2048, 2048) \<and>
   downloads (exportSingleFrame 1700000000000 ''png'' dome_off) =
     [(''dome_frame_4096x4096_1700000000000.png'', DataURL ''png'')]"
  by (simp add: dome_off_eq dome_on_eq init_def world_ops startImageSequence_def
        exportSingleFrame_def RECORDING_RESOLUTION_def getDomeOutputResolution_def
        DOME_OUTPUT_RESOLUTION_def String_of_date String_of_4096)

section \<open>Properties of the image sequence\<close>

lemma capture_fields:
  assumes "imageSequenceMode s"
  shows "imageSequenceMode (captureImageSequenceFrame d s)"
    and "imageSequenceFrames (captureImageSequenceFrame d s) = imageSequenceFrames s @ [d]"
    and "imageSequenceFrameCount (captureImageSequenceFrame d s) = imageSequenceFrameCount s + 1"
    and "timers (captureImageSequenceFrame d s) = timers s"
    and "downloads (captureImageSequenceFrame d s) = downloads s"
  using assms by (simp_all add: captureImageSequenceFrame_def Let_def console_log_def)

lemma captures_fields:
  assumes "imageSequenceMode s"
  shows "imageSequenceMode (fold captureImageSequenceFrame ds s) \<and>
         imageSequenceFrames (fold captureImageSequenceFrame ds s) = imageSequenceFrames s @ ds \<and>
         imageSequenceFrameCount (fold captureImageSequenceFrame ds s) =
           imageSequenceFrameCount s + length ds \<and>
         timers (fold captureImageSequenceFrame ds s) = timers s \<and>
         downloads (fold captureImageSequenceFrame ds s) = downloads s"
  using assms
proof (induction ds arbitrary: s)
  case Nil
  then show ?case by simp
next
  case (Cons d ds)
  show ?case
    using Cons.IH [OF capture_fields(1) [OF Cons.prems, of d]] capture_fields(2-5) [OF Cons.prems, of d]
    by simp
qed

lemma startImageSequence_fields:
  "imageSequenceMode (startImageSequence s)"
  "imageSequenceFrames (startImageSequence s) = []"
  "imageSequenceFrameCount (startImageSequence s) = 0"
  "timers (startImageSequence s) = timers s"
  "downloads (startImageSequence s) = downloads s"
  by (simp_all add: startImageSequence_def Let_def console_log_def setSize_def)

lemma stopImageSequence_fields:
  "\<not> imageSequenceMode (stopImageSequence s)"
  "imageSequenceFrames (stopImageSequence s) = []"
  "timers (stopImageSequence s) =
     timers s @ map (\<lambda>(index, dataURL). (index * 100, (frame_name index, DataURL dataURL)))
                  (enumerate 0 (imageSequenceFrames s))"
  "downloads (stopImageSequence s) = downloads s"
  by (simp_all add: stopImageSequence_def Let_def console_log_def setSize_def)

lemma frame_names:
  "frame_name 0 = ''frame_000000.png''"
  "frame_name 1 = ''frame_000001.png''"
  "frame_name (Suc 0) = ''frame_000001.png''"
  "frame_name 2 = ''frame_000002.png''"
  "frame_name 3 = ''frame_000003.png''"
  "frame_name 4 = ''frame_000004.png''"
  by (simp_all add: frame_name_def padStart_def String_of_nat.simps digit_char_def
        eval_nat_numeral)

text \<open>
  Claim C9. Five frames captured after \<open>startImageSequence\<close>: \<open>stopImageSequence\<close> sets
  five timers, at 0, 100, 200, 300 and 400 milliseconds, for the downloads
  \<open>frame_000000.png\<close> to \<open>frame_000004.png\<close> of the frames in the order they were captured,
  and empties the list of frames; when the timers have run (none else pending), exactly
  these five downloads were triggered, in that order.
\<close>

theorem image_sequence_five_frames:
  "timers (stopImageSequence
      (fold captureImageSequenceFrame [d0, d1, d2, d3, d4] (startImageSequence s))) =
     timers s @
       [(0, (''frame_000000.png'', DataURL d0)), (100, (''frame_000001.png'', DataURL d1)),
        (200, (''frame_000002.png'', DataURL d2)), (300, (''frame_000003.png'', DataURL d3)),
        (400, (''frame_000004.png'', DataURL d4))] \<and>
   imageSequenceFrames (stopImageSequence
      (fold captureImageSequenceFrame [d0, d1, d2, d3, d4] (startImageSequence s))) = [] \<and>
   imageSequenceFrameCount (stopImageSequence
      (fold captureImageSequenceFrame [d0, d1, d2, d3, d4] (startImageSequence s))) = 5 \<and>
   downloads (stopImageSequence
      (fold captureImageSequenceFrame [d0, d1, d2, d3, d4] (startImageSequence s))) = downloads s \<and>
   (timers s = [] \<longrightarrow>
      downloads (runTimers (stopImageSequence
        (fold captureImageSequenceFrame [d0, d1, d2, d3, d4] (startImageSequence s)))) =
        downloads s @
          [(''frame_000000.png'', DataURL d0), (''frame_000001.png'', DataURL d1),
           (''frame_000002.png'', DataURL d2), (''frame_000003.png'', DataURL d3),
           (''frame_000004.png'', DataURL d4)] \<and>
      timers (runTimers (stopImageSequence
        (fold captureImageSequenceFrame [d0, d1, d2, d3, d4] (startImageSequence s)))) = [])"
proof -
  let ?c = "fold captureImageSequenceFrame [d0, d1, d2, d3, d4] (startImageSequence s)"
  have c: "imageSequenceFrames ?c = [d0, d1, d2, d3, d4]" "timers ?c = timers s"
    "downloads ?c = downloads s" "imageSequenceFrameCount ?c = 5"
    using captures_fields [OF startImageSequence_fields(1), of "[d0, d1, d2, d3, d4]" s]
    by (simp_all add: startImageSequence_fields)
  have e: "enumerate 0 [d0, d1, d2, d3, d4] = [(0, d0), (1, d1), (2, d2), (3, d3), (4, d4)]"
    by (simp add: enumerate_eq_zip upt_rec)
  have t: "timers (stopImageSequence ?c) =
     timers s @
       [(0, (''frame_000000.png'', DataURL d0)), (100, (''frame_000001.png'', DataURL d1)),
        (200, (''frame_000002.png'', DataURL d2)), (300, (''frame_000003.png'', DataURL d3)),
        (400, (''frame_000004.png'', DataURL d4))]"
    unfolding stopImageSequence_fields(3) c e by (simp add: frame_names)
  have n: "imageSequenceFrameCount (stopImageSequence ?c) = 5"
    using c(4) by (simp add: stopImageSequence_def Let_def console_log_def setSize_def)
  have d: "downloads (stopImageSequence ?c) = downloads s"
    unfolding stopImageSequence_fields(4) c ..
  have r: "downloads (runTimers (stopImageSequence ?c)) =
        downloads s @
          [(''frame_000000.png'', DataURL d0), (''frame_000001.png'', DataURL d1),
           (''frame_000002.png'', DataURL d2), (''frame_000003.png'', DataURL d3),
           (''frame_000004.png'', DataURL d4)] \<and>
      timers (runTimers (stopImageSequence ?c)) = []" if "timers s = []"
    unfolding runTimers_def using t d that by simp
  show ?thesis
    using t n d r stopImageSequence_fields(2) [of ?c] by blast
qed

theorem image_sequence_five_frames_witness:
  "timers dome_on = [] \<and>
   downloads (runTimers (stopImageSequence
      (fold captureImageSequenceFrame [''a'', ''b'', ''c'', ''d'', ''e''] (startImageSequence dome_on)))) =
     [(''frame_000000.png'', DataURL ''a''), (''frame_000001.png'', DataURL ''b''),
      (''frame_000002.png'', DataURL ''c''), (''frame_000003.png'', DataURL ''d''),
      (''frame_000004.png'', DataURL ''e'')] \<and>
   timers (runTimers (stopImageSequence
      (fold captureImageSequenceFrame [''a'', ''b'', ''c'', ''d'', ''e''] (startImageSequence dome_on)))) = []"
proof -
  have t: "timers dome_on = []" and d: "downloads dome_on = []"
    by (simp_all add: dome_on_eq init_def)
  show ?thesis
    using t d image_sequence_five_frames [of "''a''" "''b''" "''c''" "''d''" "''e''" dome_on]
    by (simp)
qed

end
